theory Spec2Isabelle
  imports Main
begin

section \<open>The header \<open>asm/socket.h\<close> (mipsel-linux-android)\<close>

text \<open>
  The header consists of preprocessor directives only: the include guard (line 20), the
  inclusion of \<open>asm/sockios.h\<close> (line 21) and seventy object-like macro definitions
  (lines 22 to 91). The replacement list of each of the seventy macros is one
  preprocessing token: an integer constant, or the name of a macro defined earlier in the
  same file. The replacement list of the include guard is empty.

  A macro definition is modelled as the pair of its name and its replacement list, and the
  file as the list of its definitions in source order. The integer constants are written
  as in the source, hexadecimal where the source is hexadecimal. All of them are small
  enough to have type \<open>int\<close> in C, so their values are modelled as integers.

  The included \<open>asm/sockios.h\<close> is a different file. No replacement list of lines 22 to 91
  mentions a name from outside this file, so the included file is left out of the model.
\<close>

datatype token = Num int | Ident string

type_synonym macro = "string \<times> token list"

definition include_guard :: macro where
  "include_guard = (''_UAPI_ASM_SOCKET_H'', [])"

definition option_defines :: "macro list" where
  "option_defines =
    [
     (''SOL_SOCKET'', [Num 0xffff]),
     (''SO_DEBUG'', [Num 0x0001]),
     (''SO_REUSEADDR'', [Num 0x0004]),
     (''SO_KEEPALIVE'', [Num 0x0008]),
     (''SO_DONTROUTE'', [Num 0x0010]),
     (''SO_BROADCAST'', [Num 0x0020]),
     (''SO_LINGER'', [Num 0x0080]),
     (''SO_OOBINLINE'', [Num 0x0100]),
     (''SO_REUSEPORT'', [Num 0x0200]),
     (''SO_TYPE'', [Num 0x1008]),
     (''SO_STYLE'', [Ident ''SO_TYPE'']),
     (''SO_ERROR'', [Num 0x1007]),
     (''SO_SNDBUF'', [Num 0x1001]),
     (''SO_RCVBUF'', [Num 0x1002]),
     (''SO_SNDLOWAT'', [Num 0x1003]),
     (''SO_RCVLOWAT'', [Num 0x1004]),
     (''SO_SNDTIMEO'', [Num 0x1005]),
     (''SO_RCVTIMEO'', [Num 0x1006]),
     (''SO_ACCEPTCONN'', [Num 0x1009]),
     (''SO_PROTOCOL'', [Num 0x1028]),
     (''SO_DOMAIN'', [Num 0x1029]),
     (''SO_NO_CHECK'', [Num 11]),
     (''SO_PRIORITY'', [Num 12]),
     (''SO_BSDCOMPAT'', [Num 14]),
     (''SO_PASSCRED'', [Num 17]),
     (''SO_PEERCRED'', [Num 18]),
     (''SO_SECURITY_AUTHENTICATION'', [Num 22]),
     (''SO_SECURITY_ENCRYPTION_TRANSPORT'', [Num 23]),
     (''SO_SECURITY_ENCRYPTION_NETWORK'', [Num 24]),
     (''SO_BINDTODEVICE'', [Num 25]),
     (''SO_ATTACH_FILTER'', [Num 26]),
     (''SO_DETACH_FILTER'', [Num 27]),
     (''SO_GET_FILTER'', [Ident ''SO_ATTACH_FILTER'']),
     (''SO_PEERNAME'', [Num 28]),
     (''SO_TIMESTAMP'', [Num 29]),
     (''SCM_TIMESTAMP'', [Ident ''SO_TIMESTAMP'']),
     (''SO_PEERSEC'', [Num 30]),
     (''SO_SNDBUFFORCE'', [Num 31]),
     (''SO_RCVBUFFORCE'', [Num 33]),
     (''SO_PASSSEC'', [Num 34]),
     (''SO_TIMESTAMPNS'', [Num 35]),
     (''SCM_TIMESTAMPNS'', [Ident ''SO_TIMESTAMPNS'']),
     (''SO_MARK'', [Num 36]),
     (''SO_TIMESTAMPING'', [Num 37]),
     (''SCM_TIMESTAMPING'', [Ident ''SO_TIMESTAMPING'']),
     (''SO_RXQ_OVFL'', [Num 40]),
     (''SO_WIFI_STATUS'', [Num 41]),
     (''SCM_WIFI_STATUS'', [Ident ''SO_WIFI_STATUS'']),
     (''SO_PEEK_OFF'', [Num 42]),
     (''SO_NOFCS'', [Num 43]),
     (''SO_LOCK_FILTER'', [Num 44]),
     (''SO_SELECT_ERR_QUEUE'', [Num 45]),
     (''SO_BUSY_POLL'', [Num 46]),
     (''SO_MAX_PACING_RATE'', [Num 47]),
     (''SO_BPF_EXTENSIONS'', [Num 48]),
     (''SO_INCOMING_CPU'', [Num 49]),
     (''SO_ATTACH_BPF'', [Num 50]),
     (''SO_DETACH_BPF'', [Ident ''SO_DETACH_FILTER'']),
     (''SO_ATTACH_REUSEPORT_CBPF'', [Num 51]),
     (''SO_ATTACH_REUSEPORT_EBPF'', [Num 52]),
     (''SO_CNX_ADVICE'', [Num 53]),
     (''SCM_TIMESTAMPING_OPT_STATS'', [Num 54]),
     (''SO_MEMINFO'', [Num 55]),
     (''SO_INCOMING_NAPI_ID'', [Num 56]),
     (''SO_COOKIE'', [Num 57]),
     (''SCM_TIMESTAMPING_PKTINFO'', [Num 58]),
     (''SO_PEERGROUPS'', [Num 59]),
     (''SO_ZEROCOPY'', [Num 60]),
     (''SO_TXTIME'', [Num 61]),
     (''SCM_TXTIME'', [Ident ''SO_TXTIME''])]"

definition socket_h :: "macro list" where
  "socket_h = include_guard # option_defines"

definition defined_names :: "string list" where
  "defined_names = map fst option_defines"

subsection \<open>Macro replacement\<close>

text \<open>
  A consumer of the header writes one of the names in its own code, and the preprocessor
  replaces it. Replacement of object-like macros follows C11 6.10.3.4: an identifier
  that names a macro is replaced by the macro's replacement list, the result is rescanned
  for further macro names, and the name of a macro being replaced is not replaced again
  during the rescan of its own replacement. \<open>hs\<close> is the list of the names that are
  being replaced; a number, an unknown identifier and a name in \<open>hs\<close> are left as they
  are.
\<close>

function expand :: "macro list \<Rightarrow> string list \<Rightarrow> token list \<Rightarrow> token list" where
  "expand env hs [] = []"
| "expand env hs (Num v # ts) = Num v # expand env hs ts"
| "expand env hs (Ident n # ts) =
     (if n \<in> set hs then Ident n # expand env hs ts
      else case map_of env n of
             None \<Rightarrow> Ident n # expand env hs ts
           | Some body \<Rightarrow> expand env (n # hs) body @ expand env hs ts)"
  by pat_completeness auto

termination
proof (relation "measures [\<lambda>(env, hs, ts). card (fst ` set env - set hs),
                           \<lambda>(env, hs, ts). length ts]", goal_cases)
  case 1
  show ?case by simp
next
  case (2 env hs v ts)
  show ?case by simp
next
  case (3 env hs n ts)
  show ?case by simp
next
  case (4 env hs n ts)
  show ?case by simp
next
  case (5 env hs n ts body)
  from 5(2) have "n \<in> fst ` set env"
    by (metis map_of_SomeD fst_conv image_eqI)
  with 5(1) have "fst ` set env - set (n # hs) \<subset> fst ` set env - set hs"
    by auto
  then have "card (fst ` set env - set (n # hs)) < card (fst ` set env - set hs)"
    by (intro psubset_card_mono) auto
  then show ?case by simp
next
  case (6 env hs n ts body)
  show ?case by simp
qed

text \<open>
  The value of a name is what its replacement under the whole header leaves: a single
  integer constant, or nothing that is a value (the name is not a macro of the header, or
  its replacement is empty).
\<close>

definition value_of :: "string \<Rightarrow> int option" where
  "value_of n = (case expand socket_h [] [Ident n] of [Num v] \<Rightarrow> Some v | _ \<Rightarrow> None)"

subsection \<open>Literal definitions and aliases\<close>

fun is_literal :: "macro \<Rightarrow> bool" where
  "is_literal (n, [Num v]) = True"
| "is_literal _ = False"

fun alias_of :: "macro \<Rightarrow> (string \<times> string) list" where
  "alias_of (n, [Ident a]) = [(n, a)]"
| "alias_of _ = []"

definition literal_names :: "string list" where
  "literal_names = map fst (filter is_literal option_defines)"

definition alias_pairs :: "(string \<times> string) list" where
  "alias_pairs = concat (map alias_of option_defines)"

text \<open>
  The name a value is taken from: the target of an alias, the name itself otherwise.
\<close>

definition canonical_name :: "string \<Rightarrow> string" where
  "canonical_name n = (case map_of alias_pairs n of Some t \<Rightarrow> t | None \<Rightarrow> n)"

subsection \<open>The constant table\<close>

text \<open>
  The specification describes the header as a constant table: an immutable mapping from
  names to integer values, built once, in which an entry is either an integer literal or
  an alias that takes the value of an entry defined before it. This is that table, built
  from the definitions of lines 22 to 91 in order; each alias is resolved when it is
  added, not when it is looked up.
\<close>

fun add_constant :: "(string \<times> int) list \<Rightarrow> macro \<Rightarrow> (string \<times> int) list" where
  "add_constant tbl (n, [Num v]) = tbl @ [(n, v)]"
| "add_constant tbl (n, [Ident a]) =
     (case map_of tbl a of Some v \<Rightarrow> tbl @ [(n, v)] | None \<Rightarrow> tbl)"
| "add_constant tbl (n, _) = tbl"

definition constant_table :: "(string \<times> int) list" where
  "constant_table = foldl add_constant [] option_defines"

definition lookup :: "string \<Rightarrow> int option" where
  "lookup n = map_of constant_table n"

section \<open>Evaluating the header\<close>

text \<open>
  The facts of this section are computed from the seventy definitions.
\<close>

lemma table_names: "map fst constant_table = defined_names"
  by code_simp

lemma table_expansions:
  "map (\<lambda>n. expand socket_h [] [Ident n]) defined_names = map (\<lambda>p. [Num (snd p)]) constant_table"
  by code_simp

lemma distinct_defined_names: "distinct defined_names"
  by code_simp

lemma guard_not_option: "fst include_guard \<notin> set defined_names"
  by code_simp

lemma guard_value: "value_of (fst include_guard) = None"
  by code_simp

lemma table_range: "list_all (\<lambda>p. 0 \<le> snd p \<and> snd p \<le> 65535) constant_table"
  by code_simp

lemma literal_values_distinct: "distinct (map value_of literal_names)"
  by code_simp

lemma alias_pairs_eval:
  "alias_pairs =
    [(''SO_STYLE'', ''SO_TYPE''), (''SO_GET_FILTER'', ''SO_ATTACH_FILTER''),
     (''SCM_TIMESTAMP'', ''SO_TIMESTAMP''), (''SCM_TIMESTAMPNS'', ''SO_TIMESTAMPNS''),
     (''SCM_TIMESTAMPING'', ''SO_TIMESTAMPING''), (''SCM_WIFI_STATUS'', ''SO_WIFI_STATUS''),
     (''SO_DETACH_BPF'', ''SO_DETACH_FILTER''), (''SCM_TXTIME'', ''SO_TXTIME'')]"
  by code_simp

lemma canonical_names:
  "list_all (\<lambda>n. canonical_name n \<in> set literal_names \<and> value_of (canonical_name n) = value_of n) defined_names"
  by code_simp

lemma names_partition:
  "list_all (\<lambda>n. (n \<in> set literal_names) \<noteq> (n \<in> set (map fst alias_pairs)))
     defined_names"
  by code_simp

lemma length_defined_names: "length defined_names = 70"
  by code_simp

lemma expand_append: "expand env hs (ts @ us) = expand env hs ts @ expand env hs us"
  by (induction env hs ts rule: expand.induct) (auto split: option.splits)

lemma alias_values:
  "list_all (\<lambda>p. value_of (fst p) = value_of (snd p) \<and> value_of (fst p) \<noteq> None
                 \<and> snd p \<in> set literal_names) alias_pairs"
  by code_simp

section \<open>Macro replacement and the constant table agree\<close>

lemma map_pointwise: "map f (map fst xs) = map g xs \<Longrightarrow> p \<in> set xs \<Longrightarrow> f (fst p) = g p"
  by (induction xs) auto

lemma expand_defined:
  assumes "lookup n = Some v"
  shows "expand socket_h [] [Ident n] = [Num v]"
proof -
  from assms have mem: "(n, v) \<in> set constant_table"
    unfolding lookup_def by (rule map_of_SomeD)
  have "map (\<lambda>n. expand socket_h [] [Ident n]) (map fst constant_table)
          = map (\<lambda>p. [Num (snd p)]) constant_table"
    using table_expansions by (simp only: table_names)
  from map_pointwise [OF this mem] show ?thesis by simp
qed

lemma value_of_defined: "lookup n = Some v \<Longrightarrow> value_of n = Some v"
  by (simp add: value_of_def expand_defined del: expand.simps)

lemma lookup_defined:
  assumes "n \<in> set defined_names"
  shows "\<exists>v. lookup n = Some v"
proof -
  from assms have "n \<in> fst ` set constant_table"
    by (simp add: table_names [symmetric])
  then have "map_of constant_table n \<noteq> None"
    by (simp add: map_of_eq_None_iff)
  then show ?thesis by (simp add: lookup_def)
qed

lemma lookup_undefined: "n \<notin> set defined_names \<Longrightarrow> lookup n = None"
  by (simp add: lookup_def map_of_eq_None_iff table_names [symmetric])

lemma header_names: "map fst socket_h = fst include_guard # defined_names"
  by (simp add: socket_h_def defined_names_def)

lemma value_of_undefined:
  assumes "n \<notin> set defined_names"
  shows "value_of n = None"
proof (cases "n = fst include_guard")
  case True
  then show ?thesis by (simp add: guard_value)
next
  case False
  with assms have "n \<notin> set (map fst socket_h)"
    by (simp add: header_names)
  then have "map_of socket_h n = None"
    by (simp add: map_of_eq_None_iff)
  then show ?thesis by (simp add: value_of_def)
qed

lemma value_of_eq_lookup: "value_of n = lookup n"
proof (cases "n \<in> set defined_names")
  case True
  then obtain v where "lookup n = Some v" using lookup_defined by blast
  then show ?thesis by (simp add: value_of_defined)
next
  case False
  then show ?thesis by (simp add: value_of_undefined lookup_undefined)
qed

lemma value_in_table: "value_of n = Some v \<Longrightarrow> (n, v) \<in> set constant_table"
  by (simp add: value_of_eq_lookup lookup_def map_of_SomeD)

lemma distinct_header_names: "distinct (map fst socket_h)"
  using guard_not_option distinct_defined_names by (simp add: header_names)

lemma inj_on_literal_values: "inj_on value_of (set literal_names)"
  using literal_values_distinct by (simp add: distinct_map)

lemma canonical_name_props:
  assumes "n \<in> set defined_names"
  shows "canonical_name n \<in> set literal_names" and "value_of (canonical_name n) = value_of n"
  using canonical_names assms by (auto simp: list_all_iff)

lemma alias_targets_distinct: "distinct (map snd alias_pairs)"
  by (simp add: alias_pairs_eval)

lemma same_value_is_alias:
  assumes a: "a \<in> set defined_names" and b: "b \<in> set defined_names"
    and ne: "a \<noteq> b" and eq: "value_of a = value_of b"
  shows "(a, b) \<in> set alias_pairs \<or> (b, a) \<in> set alias_pairs"
proof -
  have "value_of (canonical_name a) = value_of (canonical_name b)"
    using a b eq by (simp add: canonical_name_props)
  then have c: "canonical_name a = canonical_name b"
    using inj_on_literal_values canonical_name_props(1) [OF a] canonical_name_props(1) [OF b]
    by (blast dest: inj_onD)
  show ?thesis
  proof (cases "map_of alias_pairs a")
    case None
    note na = this
    show ?thesis
    proof (cases "map_of alias_pairs b")
      case None
      with na c ne show ?thesis by (simp add: canonical_name_def)
    next
      case (Some t)
      with na c have "map_of alias_pairs b = Some a" by (simp add: canonical_name_def)
      then show ?thesis by (auto dest: map_of_SomeD)
    qed
  next
    case (Some t)
    note sa = this
    show ?thesis
    proof (cases "map_of alias_pairs b")
      case None
      with sa c have "map_of alias_pairs a = Some b" by (simp add: canonical_name_def)
      then show ?thesis by (auto dest: map_of_SomeD)
    next
      case (Some u)
      with sa c have m: "(a, t) \<in> set alias_pairs" "(b, t) \<in> set alias_pairs"
        by (auto simp: canonical_name_def dest: map_of_SomeD)
      have inj: "inj_on snd (set alias_pairs)"
        using alias_targets_distinct by (simp add: distinct_map)
      from inj_onD [OF inj _ m] have "(a, t) = (b, t)" by simp
      with ne show ?thesis by simp
    qed
  qed
qed

section \<open>The properties of the header\<close>

text \<open>
  C1. The names of the constant table are exactly the names defined in lines 22 to 91 of
  the header, seventy of them and each once, and for every one of these names the value
  in the table is the integer that the preprocessor's replacement of the name ends in.
\<close>

theorem constant_table_matches_header:
  "set (map fst constant_table) = set defined_names
   \<and> distinct (map fst constant_table)
   \<and> length defined_names = 70
   \<and> card (set defined_names) = 70
   \<and> (\<forall>n\<in>set defined_names. \<exists>v. value_of n = Some v \<and> lookup n = Some v)"
proof -
  have "card (set defined_names) = 70"
    using distinct_card [OF distinct_defined_names] by (simp add: length_defined_names)
  moreover have "\<forall>n\<in>set defined_names. \<exists>v. value_of n = Some v \<and> lookup n = Some v"
    using lookup_defined value_of_defined by blast
  ultimately show ?thesis
    by (simp add: table_names distinct_defined_names length_defined_names)
qed

theorem constant_table_matches_header_witness:
  "''SO_RCVBUF'' \<in> set defined_names
   \<and> value_of ''SO_RCVBUF'' = Some 0x1002 \<and> lookup ''SO_RCVBUF'' = Some 0x1002"
proof -
  have m: "''SO_RCVBUF'' \<in> set defined_names" by code_simp
  with constant_table_matches_header obtain v
    where v: "value_of ''SO_RCVBUF'' = Some v" "lookup ''SO_RCVBUF'' = Some v"
    by blast
  have "value_of ''SO_RCVBUF'' = Some 0x1002" by code_simp
  with v m show ?thesis by simp
qed

text \<open>
  C2. The aliases of the header are the eight pairs listed, in source order. For each
  pair the alias has the value of the name it stands for, its replacement ends in an
  integer constant, and the name it stands for is defined by an integer literal.
\<close>

theorem aliases_equal_their_targets:
  "alias_pairs =
    [(''SO_STYLE'', ''SO_TYPE''), (''SO_GET_FILTER'', ''SO_ATTACH_FILTER''),
     (''SCM_TIMESTAMP'', ''SO_TIMESTAMP''), (''SCM_TIMESTAMPNS'', ''SO_TIMESTAMPNS''),
     (''SCM_TIMESTAMPING'', ''SO_TIMESTAMPING''), (''SCM_WIFI_STATUS'', ''SO_WIFI_STATUS''),
     (''SO_DETACH_BPF'', ''SO_DETACH_FILTER''), (''SCM_TXTIME'', ''SO_TXTIME'')]
   \<and> (\<forall>(a, b)\<in>set alias_pairs.
         value_of a = value_of b \<and> (\<exists>v. value_of a = Some v) \<and> b \<in> set literal_names)"
proof -
  have "\<forall>(a, b)\<in>set alias_pairs.
         value_of a = value_of b \<and> (\<exists>v. value_of a = Some v) \<and> b \<in> set literal_names"
    using alias_values unfolding list_all_iff by fastforce
  with alias_pairs_eval show ?thesis by (rule conjI)
qed

theorem aliases_equal_their_targets_witness:
  "(''SCM_WIFI_STATUS'', ''SO_WIFI_STATUS'') \<in> set alias_pairs
   \<and> value_of ''SCM_WIFI_STATUS'' = value_of ''SO_WIFI_STATUS''
   \<and> value_of ''SCM_WIFI_STATUS'' = Some 41
   \<and> ''SO_WIFI_STATUS'' \<in> set literal_names"
proof -
  have m: "(''SCM_WIFI_STATUS'', ''SO_WIFI_STATUS'') \<in> set alias_pairs" by code_simp
  with aliases_equal_their_targets
  have "value_of ''SCM_WIFI_STATUS'' = value_of ''SO_WIFI_STATUS''
        \<and> ''SO_WIFI_STATUS'' \<in> set literal_names"
    by blast
  moreover have "value_of ''SCM_WIFI_STATUS'' = Some 41" by code_simp
  ultimately show ?thesis using m by simp
qed

text \<open>
  C3. Looking up names defined in lines 22 to 91 never fails. For any sequence of such
  names (in any order, with repetitions) there is a list of integers \<open>vs\<close> such that
  the value of each name is \<open>Some\<close> of the integer at its position, the table look-up
  gives the same, and replacing the whole sequence leaves exactly these integers: every
  occurrence of a name is replaced by the one value of that name.
\<close>

theorem every_lookup_succeeds:
  assumes "set ns \<subseteq> set defined_names"
  shows "\<exists>vs. map value_of ns = map Some vs \<and> map lookup ns = map Some vs
             \<and> expand socket_h [] (map Ident ns) = map Num vs"
  using assms
proof (induction ns)
  case Nil
  show ?case by simp
next
  case (Cons n ns)
  then obtain vs where vs: "map value_of ns = map Some vs" "map lookup ns = map Some vs"
      "expand socket_h [] (map Ident ns) = map Num vs"
    by auto
  from Cons.prems obtain v where v: "lookup n = Some v"
    using lookup_defined by auto
  have "expand socket_h [] (map Ident (n # ns))
          = expand socket_h [] ([Ident n] @ map Ident ns)"
    by simp
  also have "\<dots> = expand socket_h [] [Ident n] @ expand socket_h [] (map Ident ns)"
    by (rule expand_append)
  also have "\<dots> = map Num (v # vs)"
    using v vs(3) by (simp add: expand_defined del: expand.simps)
  finally have "expand socket_h [] (map Ident (n # ns)) = map Num (v # vs)" .
  moreover have "map value_of (n # ns) = map Some (v # vs)"
    using v vs(1) by (simp add: value_of_defined)
  moreover have "map lookup (n # ns) = map Some (v # vs)"
    using v vs(2) by simp
  ultimately show ?case by blast
qed

theorem every_lookup_succeeds_witness:
  "set [''SO_LINGER'', ''SO_STYLE'', ''SO_LINGER''] \<subseteq> set defined_names
   \<and> map value_of [''SO_LINGER'', ''SO_STYLE'', ''SO_LINGER''] = [Some 128, Some 4104, Some 128]
   \<and> expand socket_h [] [Ident ''SO_LINGER'', Ident ''SO_STYLE'', Ident ''SO_LINGER'']
       = [Num 128, Num 4104, Num 128]"
proof -
  have h: "set [''SO_LINGER'', ''SO_STYLE'', ''SO_LINGER''] \<subseteq> set defined_names"
    by code_simp
  from every_lookup_succeeds [OF h] obtain vs
    where 1: "map value_of [''SO_LINGER'', ''SO_STYLE'', ''SO_LINGER''] = map Some vs"
      and 2: "expand socket_h [] (map Ident [''SO_LINGER'', ''SO_STYLE'', ''SO_LINGER''])
                = map Num vs"
    by blast
  have e: "map value_of [''SO_LINGER'', ''SO_STYLE'', ''SO_LINGER'']
          = map Some [128, 4104, 128]"
    by code_simp
  with 1 have "map Some vs = map Some [128, 4104, 128]" by simp
  then have "vs = [128, 4104, 128]" by (auto simp: map_eq_Cons_conv)
  with 2 e h show ?thesis by (simp del: expand.simps)
qed

text \<open>
  C4. The value of \<open>SOL_SOCKET\<close> is \<open>0xffff\<close>, which is 65535.
\<close>

theorem sol_socket_value:
  "value_of ''SOL_SOCKET'' = Some 0xffff \<and> value_of ''SOL_SOCKET'' = Some 65535"
  by code_simp

text \<open>
  C5. \<open>SO_STYLE\<close> and \<open>SO_TYPE\<close> have the same value, \<open>0x1008\<close>, which is 4104.
\<close>

theorem so_style_so_type_value:
  "value_of ''SO_STYLE'' = value_of ''SO_TYPE'' \<and> value_of ''SO_TYPE'' = Some 0x1008
   \<and> value_of ''SO_STYLE'' = Some 4104"
  by code_simp

text \<open>
  C6. \<open>SO_DETACH_BPF\<close> and \<open>SO_DETACH_FILTER\<close> have the same value, 27.
\<close>

theorem so_detach_bpf_value:
  "value_of ''SO_DETACH_BPF'' = value_of ''SO_DETACH_FILTER''
   \<and> value_of ''SO_DETACH_FILTER'' = Some 27 \<and> value_of ''SO_DETACH_BPF'' = Some 27"
  by code_simp

text \<open>
  C7. \<open>SCM_TIMESTAMPING\<close> and \<open>SO_TIMESTAMPING\<close> have the same value, 37.
\<close>

theorem scm_timestamping_value:
  "value_of ''SCM_TIMESTAMPING'' = value_of ''SO_TIMESTAMPING''
   \<and> value_of ''SO_TIMESTAMPING'' = Some 37 \<and> value_of ''SCM_TIMESTAMPING'' = Some 37"
  by code_simp

text \<open>
  C8. The value of \<open>SO_REUSEADDR\<close> is \<open>0x0004\<close>, which is 4, and no name is defined
  twice: the names of the header's definitions (the include guard among them) are
  pairwise distinct, and so are the names of the constant table.
\<close>

theorem so_reuseaddr_value_and_unique_names:
  "value_of ''SO_REUSEADDR'' = Some 0x0004 \<and> value_of ''SO_REUSEADDR'' = Some 4
   \<and> distinct (map fst socket_h) \<and> distinct (map fst constant_table)"
proof -
  have "value_of ''SO_REUSEADDR'' = Some 4" by code_simp
  then show ?thesis
    by (simp add: distinct_header_names table_names distinct_defined_names)
qed

text \<open>
  C9. The seventy names are the names defined by an integer literal together with the
  eight alias names, and no name is both. Two different names defined by a literal have
  different values. Whenever two different names have the same value, one of them is an
  alias and the other is the name it stands for: values are shared through the eight
  aliases only (each with its target, which is a literal name).
\<close>

theorem values_shared_only_by_aliases:
  "length alias_pairs = 8
   \<and> set defined_names = set literal_names \<union> set (map fst alias_pairs)
   \<and> set literal_names \<inter> set (map fst alias_pairs) = {}
   \<and> (\<forall>a\<in>set literal_names. \<forall>b\<in>set literal_names. a \<noteq> b \<longrightarrow> value_of a \<noteq> value_of b)
   \<and> (\<forall>a\<in>set defined_names. \<forall>b\<in>set defined_names.
         a \<noteq> b \<and> value_of a = value_of b \<longrightarrow>
         (a, b) \<in> set alias_pairs \<or> (b, a) \<in> set alias_pairs)"
proof -
  have 1: "length alias_pairs = 8" by (simp add: alias_pairs_eval)
  have sub: "set literal_names \<subseteq> set defined_names"
    by (auto simp: literal_names_def defined_names_def)
  have sub': "set (map fst alias_pairs) \<subseteq> set defined_names"
    by code_simp
  have part: "\<forall>n\<in>set defined_names.
         (n \<in> set literal_names) \<noteq> (n \<in> set (map fst alias_pairs))"
    using names_partition by (simp add: list_all_iff)
  have 2: "set defined_names = set literal_names \<union> set (map fst alias_pairs)"
    using sub sub' part by blast
  have 3: "set literal_names \<inter> set (map fst alias_pairs) = {}"
    using sub part by blast
  have 4: "\<forall>a\<in>set literal_names. \<forall>b\<in>set literal_names. a \<noteq> b \<longrightarrow> value_of a \<noteq> value_of b"
    using inj_on_literal_values by (auto dest: inj_onD)
  have 5: "\<forall>a\<in>set defined_names. \<forall>b\<in>set defined_names.
         a \<noteq> b \<and> value_of a = value_of b \<longrightarrow>
         (a, b) \<in> set alias_pairs \<or> (b, a) \<in> set alias_pairs"
    using same_value_is_alias by blast
  from 1 2 3 4 5 show ?thesis by (intro conjI)
qed

theorem values_shared_only_by_aliases_witness:
  "''SO_DONTROUTE'' \<in> set literal_names \<and> ''SO_PASSCRED'' \<in> set literal_names
   \<and> ''SO_DONTROUTE'' \<noteq> ''SO_PASSCRED''
   \<and> value_of ''SO_DONTROUTE'' \<noteq> value_of ''SO_PASSCRED''
   \<and> ''SO_DETACH_BPF'' \<in> set defined_names \<and> ''SO_DETACH_FILTER'' \<in> set defined_names
   \<and> ''SO_DETACH_BPF'' \<noteq> ''SO_DETACH_FILTER''
   \<and> value_of ''SO_DETACH_BPF'' = value_of ''SO_DETACH_FILTER''
   \<and> (''SO_DETACH_BPF'', ''SO_DETACH_FILTER'') \<in> set alias_pairs
   \<and> (''SO_DETACH_FILTER'', ''SO_DETACH_BPF'') \<notin> set alias_pairs"
proof -
  have l: "''SO_DONTROUTE'' \<in> set literal_names" "''SO_PASSCRED'' \<in> set literal_names"
    by code_simp+
  have d: "''SO_DETACH_BPF'' \<in> set defined_names" "''SO_DETACH_FILTER'' \<in> set defined_names"
    by code_simp+
  have ne: "''SO_DONTROUTE'' \<noteq> ''SO_PASSCRED''" "''SO_DETACH_BPF'' \<noteq> ''SO_DETACH_FILTER''"
    by simp_all
  have eq: "value_of ''SO_DETACH_BPF'' = value_of ''SO_DETACH_FILTER''" by code_simp
  have no: "(''SO_DETACH_FILTER'', ''SO_DETACH_BPF'') \<notin> set alias_pairs" by code_simp
  from values_shared_only_by_aliases
  have inj: "\<forall>a\<in>set literal_names. \<forall>b\<in>set literal_names.
         a \<noteq> b \<longrightarrow> value_of a \<noteq> value_of b"
    and shared: "\<forall>a\<in>set defined_names. \<forall>b\<in>set defined_names.
         a \<noteq> b \<and> value_of a = value_of b \<longrightarrow>
         (a, b) \<in> set alias_pairs \<or> (b, a) \<in> set alias_pairs"
    by blast+
  from bspec [OF bspec [OF inj l(1)] l(2)] ne(1)
  have a: "value_of ''SO_DONTROUTE'' \<noteq> value_of ''SO_PASSCRED''" by (rule mp)
  from bspec [OF bspec [OF shared d(1)] d(2)] conjI [OF ne(2) eq]
  have "(''SO_DETACH_BPF'', ''SO_DETACH_FILTER'') \<in> set alias_pairs
        \<or> (''SO_DETACH_FILTER'', ''SO_DETACH_BPF'') \<in> set alias_pairs"
    by (rule mp)
  then have b: "(''SO_DETACH_BPF'', ''SO_DETACH_FILTER'') \<in> set alias_pairs"
  proof
    assume "(''SO_DETACH_BPF'', ''SO_DETACH_FILTER'') \<in> set alias_pairs"
    then show ?thesis .
  next
    assume "(''SO_DETACH_FILTER'', ''SO_DETACH_BPF'') \<in> set alias_pairs"
    with no show ?thesis by (rule notE)
  qed
  from l d ne eq no a b show ?thesis by (intro conjI)
qed

text \<open>
  C10. Every value of a name is an integer between 0 and \<open>0xffff\<close> (65535), that is,
  it is unchanged by truncation to 16 bits; \<open>SOL_SOCKET\<close> has the value \<open>0xffff\<close>, so
  the bound is attained.
\<close>

theorem values_fit_in_16_bits:
  "(\<forall>n v. value_of n = Some v \<longrightarrow> 0 \<le> v \<and> v \<le> 0xffff \<and> take_bit 16 v = v)
   \<and> value_of ''SOL_SOCKET'' = Some 0xffff"
proof -
  have "0 \<le> v \<and> v \<le> 0xffff \<and> take_bit 16 v = v" if "value_of n = Some v" for n v
  proof -
    from that have "(n, v) \<in> set constant_table" by (rule value_in_table)
    with table_range have "0 \<le> v \<and> v \<le> 65535" by (auto simp: list_all_iff)
    then show ?thesis by (simp add: take_bit_int_eq_self)
  qed
  moreover have "value_of ''SOL_SOCKET'' = Some 0xffff" by code_simp
  ultimately show ?thesis by blast
qed

theorem values_fit_in_16_bits_witness:
  "value_of ''SO_DOMAIN'' = Some 0x1029 \<and> (0::int) \<le> 0x1029 \<and> (0x1029::int) \<le> 0xffff
   \<and> take_bit 16 (0x1029::int) = 0x1029"
proof -
  have h: "value_of ''SO_DOMAIN'' = Some 0x1029" by code_simp
  with values_fit_in_16_bits
  have "(0::int) \<le> 0x1029 \<and> (0x1029::int) \<le> 0xffff \<and> take_bit 16 (0x1029::int) = 0x1029"
    by blast
  with h show ?thesis by simp
qed

end
